theory Spec2Isabelle
  imports Complex_Main
begin

section \<open>Python strings\<close>

text \<open>
  A Python \<open>str\<close> is modelled by its UTF-8 byte sequence, a \<^typ>\<open>string\<close>, one
  \<^typ>\<open>char\<close> for each byte. Counting and splitting at the line feed, tests for an ASCII
  prefix, suffix or substring, and the byte length of \<open>encode("utf-8")\<close> are exact on this
  representation. White space and case are those of Unicode, written on the bytes of the
  characters concerned.
\<close>

definition newline :: char where
  "newline = CHR 0x0A"

text \<open>\<open>s.count("\n")\<close>\<close>

definition count_newlines :: "string \<Rightarrow> int" where
  "count_newlines s = int (count_list s newline)"

text \<open>\<open>s.split("\n")\<close>: always at least one element.\<close>

fun split_lines :: "string \<Rightarrow> string list" where
  "split_lines [] = [[]]"
| "split_lines (c # cs) =
     (if c = newline then [] # split_lines cs
      else (case split_lines cs of
              [] \<Rightarrow> [[c]]
            | l # ls \<Rightarrow> (c # l) # ls))"

text \<open>\<open>"\n".join(xs)\<close>\<close>

fun join_lines :: "string list \<Rightarrow> string" where
  "join_lines [] = []"
| "join_lines [x] = x"
| "join_lines (x # y # ys) = x @ newline # join_lines (y # ys)"

text \<open>\<open>s.startswith(p)\<close>, \<open>s.endswith(p)\<close>, and their forms with a tuple of
  alternatives.\<close>

definition startswith :: "string \<Rightarrow> string \<Rightarrow> bool" where
  "startswith s p = (take (length p) s = p)"

definition endswith :: "string \<Rightarrow> string \<Rightarrow> bool" where
  "endswith s p = (length p \<le> length s \<and> drop (length s - length p) s = p)"

definition startswith_any :: "string \<Rightarrow> string list \<Rightarrow> bool" where
  "startswith_any s ps = list_ex (startswith s) ps"

definition endswith_any :: "string \<Rightarrow> string list \<Rightarrow> bool" where
  "endswith_any s ps = list_ex (endswith s) ps"

text \<open>\<open>sub in s\<close>\<close>

fun contains :: "string \<Rightarrow> string \<Rightarrow> bool" where
  "contains [] sub = (sub = [])"
| "contains (c # cs) sub = (startswith (c # cs) sub \<or> contains cs sub)"

text \<open>The other case of an ASCII letter; every other byte stays as it is.\<close>

definition ascii_lower :: "char \<Rightarrow> char" where
  "ascii_lower c =
     (let n = (of_char c :: nat) in if 65 \<le> n \<and> n \<le> 90 then char_of (n + 32) else c)"

definition ascii_upper :: "char \<Rightarrow> char" where
  "ascii_upper c =
     (let n = (of_char c :: nat) in if 97 \<le> n \<and> n \<le> 122 then char_of (n - 32) else c)"

text \<open>
  The characters beyond ASCII that Unicode ties to an ASCII letter, in UTF-8: the Kelvin
  sign U+212A, the capital I with a dot above U+0130, the dotless i U+0131, the long s
  U+017F, and the combining dot above U+0307.
\<close>

definition kelvin_sign :: string where
  "kelvin_sign = [CHR 0xE2, CHR 0x84, CHR 0xAA]"

definition capital_i_dot :: string where
  "capital_i_dot = [CHR 0xC4, CHR 0xB0]"

definition dotless_i :: string where
  "dotless_i = [CHR 0xC4, CHR 0xB1]"

definition long_s :: string where
  "long_s = [CHR 0xC5, CHR 0xBF]"

definition combining_dot :: string where
  "combining_dot = [CHR 0xCC, CHR 0x87]"

text \<open>
  \<open>s.lower()\<close>. Unicode's lower-case mappings give an ASCII letter for the letters A to Z,
  for the Kelvin sign (\<open>k\<close>) and for the capital I with a dot above (\<open>i\<close> and the
  combining dot). Every other character beyond ASCII has a lower-case form beyond ASCII,
  and its bytes are kept as they are: the program asks of a lower-case string only
  whether an ASCII word occurs in it, and for an ASCII word \<open>w\<close> the test
  \<open>w in s.lower()\<close> of the code is \<open>contains (lower s) w\<close> here.
\<close>

fun lower :: "string \<Rightarrow> string" where
  "lower [] = []"
| "lower (c # s) =
     (if startswith (c # s) kelvin_sign then CHR ''k'' # lower (drop 2 s)
      else if startswith (c # s) capital_i_dot then CHR ''i'' # combining_dot @ lower (drop 1 s)
      else ascii_lower c # lower s)"

text \<open>
  The white space of \<open>str.strip()\<close>, each character in UTF-8: tab to carriage return
  (U+0009 to U+000D), the four separators U+001C to U+001F, the space, U+0085, U+00A0,
  U+1680, U+2000 to U+200A, U+2028, U+2029, U+202F, U+205F and U+3000.
\<close>

definition white_space :: "string list" where
  "white_space =
     [[CHR 0x09], [CHR 0x0A], [CHR 0x0B], [CHR 0x0C], [CHR 0x0D],
      [CHR 0x1C], [CHR 0x1D], [CHR 0x1E], [CHR 0x1F], [CHR 0x20],
      [CHR 0xC2, CHR 0x85], [CHR 0xC2, CHR 0xA0], [CHR 0xE1, CHR 0x9A, CHR 0x80],
      [CHR 0xE2, CHR 0x80, CHR 0x80], [CHR 0xE2, CHR 0x80, CHR 0x81],
      [CHR 0xE2, CHR 0x80, CHR 0x82], [CHR 0xE2, CHR 0x80, CHR 0x83],
      [CHR 0xE2, CHR 0x80, CHR 0x84], [CHR 0xE2, CHR 0x80, CHR 0x85],
      [CHR 0xE2, CHR 0x80, CHR 0x86], [CHR 0xE2, CHR 0x80, CHR 0x87],
      [CHR 0xE2, CHR 0x80, CHR 0x88], [CHR 0xE2, CHR 0x80, CHR 0x89],
      [CHR 0xE2, CHR 0x80, CHR 0x8A], [CHR 0xE2, CHR 0x80, CHR 0xA8],
      [CHR 0xE2, CHR 0x80, CHR 0xA9], [CHR 0xE2, CHR 0x80, CHR 0xAF],
      [CHR 0xE2, CHR 0x81, CHR 0x9F], [CHR 0xE3, CHR 0x80, CHR 0x80]]"

text \<open>\<open>s.strip()\<close>: white-space characters are taken from the start of the string, then
  from its end, as long as there is one. \<open>space_at_start\<close> and \<open>space_at_end\<close> hold the
  encoding of the white-space character that starts or ends the string, if there is
  one.\<close>

definition space_at_start :: "string \<Rightarrow> string list" where
  "space_at_start s = filter (startswith s) white_space"

definition space_at_end :: "string \<Rightarrow> string list" where
  "space_at_end s = filter (endswith s) white_space"

function lstrip :: "string \<Rightarrow> string" where
  "lstrip s =
     (if space_at_start s = [] then s
      else lstrip (drop (length (hd (space_at_start s))) s))"
  by pat_completeness auto
termination
proof (relation "measure length")
  fix s
  assume "space_at_start s \<noteq> []"
  then have "hd (space_at_start s) \<in> set (filter (startswith s) white_space)"
    unfolding space_at_start_def by (rule hd_in_set)
  then have w: "hd (space_at_start s) \<in> set white_space" "startswith s (hd (space_at_start s))"
    by auto
  from w(1) have ne: "hd (space_at_start s) \<noteq> []"
    by (auto simp add: white_space_def)
  with w(2) have "s \<noteq> []" by (auto simp add: startswith_def)
  with ne show "(drop (length (hd (space_at_start s))) s, s) \<in> measure length" by simp
qed simp

function rstrip :: "string \<Rightarrow> string" where
  "rstrip s =
     (if space_at_end s = [] then s
      else rstrip (take (length s - length (hd (space_at_end s))) s))"
  by pat_completeness auto
termination
proof (relation "measure length")
  fix s
  assume "space_at_end s \<noteq> []"
  then have "hd (space_at_end s) \<in> set (filter (endswith s) white_space)"
    unfolding space_at_end_def by (rule hd_in_set)
  then have w: "hd (space_at_end s) \<in> set white_space" "endswith s (hd (space_at_end s))"
    by auto
  from w(1) have ne: "hd (space_at_end s) \<noteq> []"
    by (auto simp add: white_space_def)
  with w(2) have "s \<noteq> []" by (auto simp add: endswith_def)
  with ne show "(take (length s - length (hd (space_at_end s))) s, s) \<in> measure length"
    by simp
qed simp

definition strip :: "string \<Rightarrow> string" where
  "strip s = rstrip (lstrip s)"

text \<open>Python's list indexing \<open>xs[i]\<close>: a negative index counts from the end, and an index
  out of range raises \<open>IndexError\<close>.\<close>

datatype error = IndexError

definition py_index :: "'a list \<Rightarrow> int \<Rightarrow> error + 'a" where
  "py_index xs i =
     (if 0 \<le> i \<and> i < int (length xs) then Inr (xs ! nat i)
      else if i < 0 \<and> - int (length xs) \<le> i then Inr (xs ! nat (int (length xs) + i))
      else Inl IndexError)"

text \<open>Python's slice \<open>xs[i:j]\<close>: negative bounds count from the end, every bound is
  clamped to the list, and an empty range gives the empty list.\<close>

definition slice_bound :: "nat \<Rightarrow> int \<Rightarrow> nat" where
  "slice_bound n i = (if i < 0 then nat (max 0 (int n + i)) else min n (nat i))"

definition py_slice :: "'a list \<Rightarrow> int \<Rightarrow> int \<Rightarrow> 'a list" where
  "py_slice xs i j =
     (let a = slice_bound (length xs) i; b = slice_bound (length xs) j
      in take (b - a) (drop a xs))"


section \<open>Regular expressions of the configuration\<close>

text \<open>
  The patterns of \<open>config.py\<close> are sequences of four kinds of item: a literal character,
  \<open>.*\<close>, \<open>$\<close>, and a group of literal alternatives \<open>(a|b|c)\<close>. \<open>pattern.match\<close> anchors
  the pattern at the start of the string and lets it end anywhere. The dot matches every
  character but the line feed; \<open>$\<close> matches at the end of the string and just before a
  line feed that ends the string.

  Under \<open>re.IGNORECASE\<close> a literal letter matches the letter in both cases, and also the
  characters that Unicode folds to it: the capital I with a dot above and the dotless i
  for \<open>i\<close>, the long s for \<open>s\<close>, the Kelvin sign for \<open>k\<close>. A literal that is not a letter
  matches itself alone.
\<close>

datatype rx = Lit char | AnyStar | Eol | Group "string list"

definition ignorecase_alternatives :: "char \<Rightarrow> string list" where
  "ignorecase_alternatives a =
     (let lo = ascii_lower a in
      (if ascii_upper lo = lo then [[lo]] else [[lo], [ascii_upper lo]])
      @ (if lo = CHR ''i'' then [capital_i_dot, dotless_i]
         else if lo = CHR ''s'' then [long_s]
         else if lo = CHR ''k'' then [kelvin_sign]
         else []))"

definition char_alternatives :: "bool \<Rightarrow> char \<Rightarrow> string list" where
  "char_alternatives ic a = (if ic then ignorecase_alternatives a else [[a]])"

text \<open>What is left of the string \<open>s\<close> after the literal word \<open>w\<close> has matched at its
  start, in every way in which it can match.\<close>

fun word_rests :: "bool \<Rightarrow> string \<Rightarrow> string \<Rightarrow> string list" where
  "word_rests ic [] s = [s]"
| "word_rests ic (a # w) s =
     concat (map (\<lambda>alt. word_rests ic w (drop (length alt) s))
               (filter (startswith s) (char_alternatives ic a)))"

fun rx_match :: "bool \<Rightarrow> rx list \<Rightarrow> string \<Rightarrow> bool" where
  "rx_match ic [] s = True"
| "rx_match ic (Lit a # rs) s = list_ex (rx_match ic rs) (word_rests ic [a] s)"
| "rx_match ic (Eol # rs) s = ((s = [] \<or> s = [newline]) \<and> rx_match ic rs s)"
| "rx_match ic (Group ws # rs) s =
     list_ex (\<lambda>w. list_ex (rx_match ic rs) (word_rests ic w s)) ws"
| "rx_match ic (AnyStar # rs) [] = rx_match ic rs []"
| "rx_match ic (AnyStar # rs) (b # s) =
     (rx_match ic rs (b # s) \<or> (b \<noteq> newline \<and> rx_match ic (AnyStar # rs) s))"

text \<open>A compiled pattern: the \<open>re.IGNORECASE\<close> flag and the items.\<close>

type_synonym pattern = "bool \<times> rx list"

definition lits :: "string \<Rightarrow> rx list" where
  "lits w = map Lit w"

definition re_compile :: "rx list \<Rightarrow> pattern" where
  "re_compile body = (False, body)"

definition re_compile_ignorecase :: "rx list \<Rightarrow> pattern" where
  "re_compile_ignorecase body = (True, body)"

definition pattern_match :: "pattern \<Rightarrow> string \<Rightarrow> bool" where
  "pattern_match p s = rx_match (fst p) (snd p) s"


section \<open>Configuration (config.py)\<close>

definition SKIP_PATTERNS :: "pattern list" where
  "SKIP_PATTERNS =
    [ re_compile (AnyStar # lits ''.lock'' @ [Eol]),
      re_compile (lits ''package-lock.json'' @ [Eol]),
      re_compile (lits ''yarn.lock'' @ [Eol]),
      re_compile (lits ''poetry.lock'' @ [Eol]),
      re_compile (lits ''Pipfile.lock'' @ [Eol]),
      re_compile (lits ''composer.lock'' @ [Eol]),
      re_compile (lits ''Gemfile.lock'' @ [Eol]),
      re_compile (lits ''Cargo.lock'' @ [Eol]),
      re_compile (AnyStar # lits ''.min.'' @ [Group [''js'', ''css''], Eol]),
      re_compile (AnyStar # lits ''dist/'' @ [AnyStar]),
      re_compile (AnyStar # lits ''build/'' @ [AnyStar]),
      re_compile (AnyStar # lits ''target/'' @ [AnyStar]),
      re_compile (AnyStar # lits ''.egg-info/'' @ [AnyStar]),
      re_compile (AnyStar # lits ''__pycache__/'' @ [AnyStar]),
      re_compile (AnyStar # lits ''.pyc'' @ [Eol]),
      re_compile (AnyStar # lits ''.pyo'' @ [Eol]),
      re_compile (AnyStar # lits ''_pb2.py'' @ [Eol]),
      re_compile (AnyStar # lits ''.generated.'' @ [AnyStar]),
      re_compile (AnyStar # lits ''.pb.go'' @ [Eol]),
      re_compile (AnyStar # lits ''.pb.js'' @ [Eol]),
      re_compile (AnyStar # lits ''.'' @
        [Group [''png'', ''jpg'', ''jpeg'', ''gif'', ''svg'', ''ico'', ''webp'', ''bmp''], Eol]),
      re_compile (AnyStar # lits ''.'' @
        [Group [''pdf'', ''zip'', ''tar'', ''gz'', ''bz2'', ''xz''], Eol]),
      re_compile (AnyStar # lits ''.'' @
        [Group [''mp3'', ''mp4'', ''avi'', ''mov'', ''wmv''], Eol]),
      re_compile (AnyStar # lits ''.'' @
        [Group [''woff'', ''woff2'', ''ttf'', ''eot'', ''otf''], Eol]) ]"

definition NOTE_ONLY_PATTERNS :: "pattern list" where
  "NOTE_ONLY_PATTERNS =
    [ re_compile (AnyStar # lits ''.csv'' @ [Eol]),
      re_compile (AnyStar # lits ''.tsv'' @ [Eol]),
      re_compile (AnyStar # lits ''.json.gz'' @ [Eol]),
      re_compile (AnyStar # lits ''.parquet'' @ [Eol]) ]"

definition CRITICAL_PATTERNS :: "pattern list" where
  "CRITICAL_PATTERNS =
    [ re_compile_ignorecase (AnyStar # lits ''auth'' @ [AnyStar]),
      re_compile_ignorecase (AnyStar # lits ''security'' @ [AnyStar]),
      re_compile_ignorecase (AnyStar # lits ''api'' @ [AnyStar]),
      re_compile_ignorecase (AnyStar # lits ''middleware'' @ [AnyStar]),
      re_compile_ignorecase (AnyStar # lits ''config'' @ [AnyStar]),
      re_compile_ignorecase (AnyStar # lits ''settings'' @ [AnyStar]),
      re_compile_ignorecase (AnyStar # lits ''database'' @ [AnyStar]),
      re_compile_ignorecase (AnyStar # lits ''db'' @ [AnyStar]) ]"

text \<open>The three thresholds are read from the environment when the class is loaded, each
  with a default; they are Python integers of either sign.\<close>

record Config =
  MAX_FILE_SIZE_KB :: int
  CHUNK_SIZE_LINES :: int
  CONTEXT_LINES :: int

definition default_config :: Config where
  "default_config = \<lparr> MAX_FILE_SIZE_KB = 500, CHUNK_SIZE_LINES = 300, CONTEXT_LINES = 5 \<rparr>"

definition should_skip_file :: "string \<Rightarrow> bool" where
  "should_skip_file filepath = list_ex (\<lambda>p. pattern_match p filepath) SKIP_PATTERNS"

definition should_note_only :: "string \<Rightarrow> bool" where
  "should_note_only filepath = list_ex (\<lambda>p. pattern_match p filepath) NOTE_ONLY_PATTERNS"

definition is_critical_path :: "string \<Rightarrow> bool" where
  "is_critical_path filepath = list_ex (\<lambda>p. pattern_match p filepath) CRITICAL_PATTERNS"

definition get_file_priority :: "string \<Rightarrow> string" where
  "get_file_priority filepath =
     (if is_critical_path filepath then ''critical''
      else if contains (lower filepath) ''test'' \<or> contains (lower filepath) ''spec'' then ''low''
      else ''normal'')"


section \<open>File filter (file\_filter.py)\<close>

record FileChange =
  old_path :: string
  new_path :: string
  diff :: string
  status :: string
  additions :: int
  deletions :: int

text \<open>\<open>size_kb\<close> is the float \<open>len(bytes) / 1024.0\<close>. Dividing an integer below \<open>2^53\<close> by
  a power of two is exact in binary floating point, so the field is modelled by the
  rational number itself.\<close>

record FilteredFile =
  file_change :: FileChange
  should_review :: bool
  should_chunk :: bool
  priority :: string
  skip_reason :: "string option"
  note_only :: bool
  size_kb :: rat
  line_count :: int

text \<open>The state of a \<open>FileFilter\<close> object: the exclusion log, a list of pairs of a path and
  a reason. \<open>__init__\<close> makes it empty.\<close>

record FileFilter =
  skipped_files :: "(string \<times> string) list"

definition init_FileFilter :: FileFilter where
  "init_FileFilter = \<lparr> skipped_files = [] \<rparr>"

text \<open>\<open>file_change.new_path or file_change.old_path\<close>\<close>

definition change_path :: "FileChange \<Rightarrow> string" where
  "change_path fc = (if new_path fc \<noteq> [] then new_path fc else old_path fc)"

definition get_skip_reason :: "string \<Rightarrow> string" where
  "get_skip_reason filepath =
     (if endswith filepath ''.lock'' \<or> contains (lower filepath) ''lock'' then ''lock file''
      else if contains (lower filepath) ''.min.'' then ''minified file''
      else if list_ex (\<lambda>pattern. contains (lower filepath) pattern)
                [''dist/'', ''build/'', ''target/''] then ''build artifact''
      else if contains filepath ''__pycache__'' \<or> endswith_any filepath [''.pyc'', ''.pyo'']
        then ''Python cache file''
      else if contains filepath ''_pb2.py'' \<or> contains filepath ''.generated.''
        then ''generated code''
      else if endswith_any filepath [''.png'', ''.jpg'', ''.jpeg'', ''.gif'', ''.svg'', ''.ico'']
        then ''image file''
      else if endswith_any filepath [''.pdf'', ''.zip'', ''.tar'', ''.gz'']
        then ''binary/archive file''
      else ''matches skip pattern'')"

text \<open>The record built for a file that is not skipped (the body of the loop of
  \<open>filter_files\<close> after the skip check).\<close>

definition analyze :: "Config \<Rightarrow> FileChange \<Rightarrow> FilteredFile" where
  "analyze cfg fc =
     (let filepath = change_path fc;
          note = should_note_only filepath;
          size = rat_of_nat (length (diff fc)) / 1024;
          lc = count_newlines (diff fc);
          chunk = (lc > CHUNK_SIZE_LINES cfg \<or> size > rat_of_int (MAX_FILE_SIZE_KB cfg));
          prio = get_file_priority filepath;
          review = (\<not> note \<and> status fc \<noteq> ''deleted'')
      in \<lparr> file_change = fc, should_review = review, should_chunk = chunk, priority = prio,
           skip_reason = None, note_only = note, size_kb = size, line_count = lc \<rparr>)"

text \<open>The loop of \<open>filter_files\<close>, with the list \<open>filtered\<close> and the exclusion log as
  accumulators.\<close>

fun filter_loop ::
  "Config \<Rightarrow> FileChange list \<Rightarrow> FilteredFile list \<Rightarrow> (string \<times> string) list
    \<Rightarrow> FilteredFile list \<times> (string \<times> string) list" where
  "filter_loop cfg [] filtered skipped = (filtered, skipped)"
| "filter_loop cfg (fc # rest) filtered skipped =
     (let filepath = change_path fc in
      if should_skip_file filepath then
        filter_loop cfg rest filtered (skipped @ [(filepath, get_skip_reason filepath)])
      else
        (let filtered_file = analyze cfg fc in
         filter_loop cfg rest (filtered @ [filtered_file])
           (if note_only filtered_file
            then skipped @ [(filepath, ''large data file (noted but not reviewed)'')]
            else skipped)))"

definition filter_files ::
  "Config \<Rightarrow> FileFilter \<Rightarrow> FileChange list \<Rightarrow> FilteredFile list \<times> FileFilter" where
  "filter_files cfg self file_changes =
     (case filter_loop cfg file_changes [] (skipped_files self) of
        (filtered, skipped) \<Rightarrow> (filtered, self\<lparr> skipped_files := skipped \<rparr>))"

definition get_skipped_files :: "FileFilter \<Rightarrow> (string \<times> string) list" where
  "get_skipped_files self = skipped_files self"


section \<open>Diff processor (diff\_processor.py)\<close>

record DiffChunk =
  filepath :: string
  chunk_number :: int
  content :: string
  start_line :: int
  end_line :: int
  total_chunks :: int

text \<open>The three tests of the loop body of \<open>_find_breakpoint\<close> on one line.\<close>

definition is_breakpoint_line :: "string \<Rightarrow> bool" where
  "is_breakpoint_line line =
     (let stripped = strip line in
      stripped = []
      \<or> startswith_any stripped [''def '', ''class '', ''function '', ''@'']
      \<or> stripped \<in> set [''}'', '']'', '')''])"

text \<open>\<open>for i in range(end - 1, start - 1, -1)\<close>: the scan at index \<open>i\<close>, going down.\<close>

function find_breakpoint_scan :: "string list \<Rightarrow> int \<Rightarrow> int \<Rightarrow> int \<Rightarrow> error + int" where
  "find_breakpoint_scan lines start end_pos i =
     (if i \<le> start - 1 then Inr end_pos
      else (case py_index lines i of
              Inl e \<Rightarrow> Inl e
            | Inr line \<Rightarrow>
                if is_breakpoint_line line then Inr (i + 1)
                else find_breakpoint_scan lines start end_pos (i - 1)))"
  by pat_completeness auto
termination
  by (relation "measure (\<lambda>(lines, start, end_pos, i). nat (i - start + 1))") auto

definition find_breakpoint :: "string list \<Rightarrow> int \<Rightarrow> int \<Rightarrow> error + int" where
  "find_breakpoint lines start end_pos = find_breakpoint_scan lines start end_pos (end_pos - 1)"

text \<open>One iteration of the loop of \<open>_chunk_diff\<close>: the end of the chunk that starts at
  \<open>current_pos\<close>.\<close>

definition choose_chunk_end :: "Config \<Rightarrow> string list \<Rightarrow> int \<Rightarrow> error + int" where
  "choose_chunk_end cfg lines current_pos =
     (let total_lines = int (length lines);
          chunk_end = min (current_pos + CHUNK_SIZE_LINES cfg) total_lines
      in if chunk_end < total_lines then
           (let search_start = max (chunk_end - 50) current_pos in
            case find_breakpoint lines search_start chunk_end of
              Inl e \<Rightarrow> Inl e
            | Inr breakpoint_pos \<Rightarrow>
                Inr (if breakpoint_pos > current_pos then breakpoint_pos else chunk_end))
         else Inr chunk_end)"

text \<open>The text of the chunk: its own lines, then the context lines of the next chunk.\<close>

definition chunk_text :: "Config \<Rightarrow> string list \<Rightarrow> int \<Rightarrow> int \<Rightarrow> string" where
  "chunk_text cfg lines current_pos chunk_end =
     (let total_lines = int (length lines);
          chunk_content = join_lines (py_slice lines current_pos chunk_end)
      in if chunk_end < total_lines \<and> CONTEXT_LINES cfg > 0 then
           (let next_context =
                  py_slice lines chunk_end (min (chunk_end + CONTEXT_LINES cfg) total_lines)
            in if next_context \<noteq> [] then chunk_content @ newline # join_lines next_context
               else chunk_content)
         else chunk_content)"

text \<open>The \<open>while\<close> loop of \<open>_chunk_diff\<close>. It need not terminate, so its result is an
  option: \<open>None\<close> is a loop that runs forever, \<open>Some (Inl e)\<close> an exception, and
  \<open>Some (Inr chunks)\<close> the list at the exit of the loop.\<close>

partial_function (option) chunk_loop ::
  "Config \<Rightarrow> string \<Rightarrow> string list \<Rightarrow> int \<Rightarrow> int \<Rightarrow> DiffChunk list
    \<Rightarrow> (error + DiffChunk list) option" where
  "chunk_loop cfg path lines current_pos chunk_num chunks =
     (if current_pos < int (length lines) then
        (case choose_chunk_end cfg lines current_pos of
           Inl e \<Rightarrow> Some (Inl e)
         | Inr chunk_end \<Rightarrow>
             chunk_loop cfg path lines chunk_end (chunk_num + 1)
               (chunks @ [\<lparr> filepath = path, chunk_number = chunk_num,
                            content = chunk_text cfg lines current_pos chunk_end,
                            start_line = current_pos + 1, end_line = chunk_end,
                            total_chunks = 0 \<rparr>]))
      else Some (Inr chunks))"

declare chunk_loop.simps [code]

definition chunk_diff :: "Config \<Rightarrow> string \<Rightarrow> string \<Rightarrow> (error + DiffChunk list) option" where
  "chunk_diff cfg path diff_content =
     (case chunk_loop cfg path (split_lines diff_content) 0 1 [] of
        None \<Rightarrow> None
      | Some (Inl e) \<Rightarrow> Some (Inl e)
      | Some (Inr chunks) \<Rightarrow>
          Some (Inr (map (\<lambda>chunk. chunk\<lparr> total_chunks := int (length chunks) \<rparr>) chunks)))"

definition process_file :: "Config \<Rightarrow> FilteredFile \<Rightarrow> (error + DiffChunk list) option" where
  "process_file cfg filtered_file =
     (let path = change_path (file_change filtered_file);
          diff_content = diff (file_change filtered_file)
      in if \<not> should_chunk filtered_file then
           Some (Inr [\<lparr> filepath = path, chunk_number = 1, content = diff_content,
                        start_line = 1, end_line = line_count filtered_file,
                        total_chunks = 1 \<rparr>])
         else chunk_diff cfg path diff_content)"


section \<open>Auxiliary definitions for the properties\<close>

text \<open>What one changed file adds to the exclusion log in \<open>filter_files\<close>.\<close>

definition log_entry :: "FileChange \<Rightarrow> (string \<times> string) list" where
  "log_entry fc =
     (let filepath = change_path fc in
      if should_skip_file filepath then [(filepath, get_skip_reason filepath)]
      else if should_note_only filepath
        then [(filepath, ''large data file (noted but not reviewed)'')]
      else [])"

text \<open>\<open>n\<close> calls of \<open>filter_files\<close> on one \<open>FileFilter\<close> object with the same argument.\<close>

fun run_filter_files :: "nat \<Rightarrow> Config \<Rightarrow> FileFilter \<Rightarrow> FileChange list \<Rightarrow> FileFilter" where
  "run_filter_files 0 cfg self file_changes = self"
| "run_filter_files (Suc n) cfg self file_changes =
     run_filter_files n cfg (snd (filter_files cfg self file_changes)) file_changes"

text \<open>The chunks that the loop of \<open>_chunk_diff\<close> appends from position \<open>pos\<close> and chunk
  number \<open>num\<close> on, for \<open>n\<close> lines: each chunk starts one line after the position, ends
  after it and within the lines, and the next chunk goes on from its end.\<close>

fun chunk_chain :: "int \<Rightarrow> int \<Rightarrow> int \<Rightarrow> DiffChunk list \<Rightarrow> bool" where
  "chunk_chain n pos num [] = (pos = n)"
| "chunk_chain n pos num (c # cs) =
     (start_line c = pos + 1 \<and> pos < end_line c \<and> end_line c \<le> n \<and> chunk_number c = num
      \<and> total_chunks c = 0 \<and> chunk_chain n (end_line c) (num + 1) cs)"

text \<open>Concrete inputs.\<close>

definition sample_change :: "string \<Rightarrow> string \<Rightarrow> string \<Rightarrow> FileChange" where
  "sample_change path d st =
     \<lparr> old_path = path, new_path = path, diff = d, status = st, additions = 0, deletions = 0 \<rparr>"

definition repeat_line :: "nat \<Rightarrow> string \<Rightarrow> string" where
  "repeat_line n l = concat (replicate n (l @ [newline]))"

definition sample_changes :: "FileChange list" where
  "sample_changes =
     [ sample_change ''src/auth/login_test.py'' (repeat_line 2 ''+x'') ''modified'',
       sample_change ''docs/yarn.lock'' (repeat_line 1 ''+y'') ''added'',
       sample_change ''data/export.parquet'' (repeat_line 1 ''+z'') ''added'',
       sample_change ''src/old_module.py'' (repeat_line 3 ''-w'') ''deleted'' ]"


definition small_config :: Config where
  "small_config = \<lparr> MAX_FILE_SIZE_KB = 500, CHUNK_SIZE_LINES = 2, CONTEXT_LINES = 1 \<rparr>"

definition five_lines :: FileChange where
  "five_lines = sample_change ''src/five.py'' (repeat_line 5 ''+x'') ''modified''"

definition big_change :: "string \<Rightarrow> FileChange" where
  "big_change d = sample_change ''src/big.py'' d ''modified''"

text \<open>Diffs of 301 lines: with a final line feed and line 250 empty, with a final line
  feed and line 251 blank (a space and the no-break space U+00A0), and with line 250
  empty and no final line feed.\<close>

definition blank_251 :: string where
  "blank_251 = [CHR 0x20, CHR 0xC2, CHR 0xA0]"

definition diff_301_blank_250 :: string where
  "diff_301_blank_250 = repeat_line 249 ''+x'' @ [newline] @ repeat_line 51 ''+x''"

definition diff_301_blank_251 :: string where
  "diff_301_blank_251 =
     repeat_line 250 ''+x'' @ blank_251 @ [newline] @ repeat_line 50 ''+x''"

definition diff_301_unterminated :: string where
  "diff_301_unterminated = repeat_line 249 ''+x'' @ [newline] @ repeat_line 50 ''+x'' @ ''+x''"

text \<open>The numbers of a chunk: its chunk number, first line, last line and \<open>total_chunks\<close>;
  and those of all the chunks of a result.\<close>

definition chunk_span :: "DiffChunk \<Rightarrow> int \<times> int \<times> int \<times> int" where
  "chunk_span c = (chunk_number c, start_line c, end_line c, total_chunks c)"

definition spans ::
  "(error + DiffChunk list) option \<Rightarrow> (int \<times> int \<times> int \<times> int) list option" where
  "spans r = (case r of Some (Inr chunks) \<Rightarrow> Some (map chunk_span chunks) | _ \<Rightarrow> None)"



text \<open>Configurations with a chunk size of three lines, with a chunk size of zero, and with
  a negative size threshold; and a diff of five lines, the second of them empty.\<close>

definition three_config :: Config where
  "three_config = \<lparr> MAX_FILE_SIZE_KB = 500, CHUNK_SIZE_LINES = 3, CONTEXT_LINES = 1 \<rparr>"

definition zero_chunk_config :: Config where
  "zero_chunk_config = \<lparr> MAX_FILE_SIZE_KB = 500, CHUNK_SIZE_LINES = 0, CONTEXT_LINES = 5 \<rparr>"

definition negative_size_config :: Config where
  "negative_size_config =
     \<lparr> MAX_FILE_SIZE_KB = - 1, CHUNK_SIZE_LINES = 300, CONTEXT_LINES = 5 \<rparr>"

definition blank_second_line :: string where
  "blank_second_line =
     ''+a'' @ [newline] @ [newline] @ ''+b'' @ [newline] @ ''+c'' @ [newline] @ ''+d''"


section \<open>The file filter as a map and a filter\<close>

lemma note_only_analyze: "note_only (analyze cfg fc) = should_note_only (change_path fc)"
  by (simp add: analyze_def Let_def)

lemma filter_loop_eq:
  "filter_loop cfg fcs filtered skipped =
     (filtered @ map (analyze cfg) (filter (\<lambda>fc. \<not> should_skip_file (change_path fc)) fcs),
      skipped @ concat (map log_entry fcs))"
  by (induction fcs arbitrary: filtered skipped)
     (simp_all add: Let_def log_entry_def note_only_analyze)

lemma filter_files_eq:
  "filter_files cfg self fcs =
     (map (analyze cfg) (filter (\<lambda>fc. \<not> should_skip_file (change_path fc)) fcs),
      self\<lparr> skipped_files := skipped_files self @ concat (map log_entry fcs) \<rparr>)"
  by (simp add: filter_files_def filter_loop_eq)

lemma run_filter_files_log:
  "skipped_files (run_filter_files n cfg self fcs) =
     skipped_files self @ concat (replicate n (concat (map log_entry fcs)))"
  by (induction n arbitrary: self) (simp_all add: filter_files_eq)

text \<open>The patterns on the paths of the examples, evaluated.\<close>

lemma skip_parquet: "should_skip_file ''data/export.parquet'' = False"
  by code_simp

lemma note_parquet: "should_note_only ''data/export.parquet'' = True"
  by code_simp

lemma skip_vendor_lock: "should_skip_file ''vendor/package-lock.json'' = False"
  by code_simp

lemma note_vendor_lock: "should_note_only ''vendor/package-lock.json'' = False"
  by code_simp

lemma skip_root_lock: "should_skip_file ''package-lock.json'' = True"
  by code_simp

lemma reason_vendor_lock: "get_skip_reason ''vendor/package-lock.json'' = ''lock file''"
  by code_simp

lemma skip_sample_paths:
  "should_skip_file ''src/auth/login_test.py'' = False"
  "should_skip_file ''docs/yarn.lock'' = True"
  "should_skip_file ''src/old_module.py'' = False"
  by code_simp+

lemma note_sample_paths:
  "should_note_only ''src/auth/login_test.py'' = False"
  "should_note_only ''src/old_module.py'' = False"
  by code_simp+

lemma reason_yarn_lock: "get_skip_reason ''docs/yarn.lock'' = ''lock file''"
  by code_simp

lemma sample_changes_kept:
  "filter (\<lambda>fc. \<not> should_skip_file (change_path fc)) sample_changes =
     [ sample_change ''src/auth/login_test.py'' (repeat_line 2 ''+x'') ''modified'',
       sample_change ''data/export.parquet'' (repeat_line 1 ''+z'') ''added'',
       sample_change ''src/old_module.py'' (repeat_line 3 ''-w'') ''deleted'' ]"
  by (simp add: sample_changes_def sample_change_def change_path_def skip_sample_paths
        skip_parquet)

lemma sample_changes_log:
  "concat (map log_entry sample_changes) =
     [ (''docs/yarn.lock'', ''lock file''),
       (''data/export.parquet'', ''large data file (noted but not reviewed)'') ]"
  by (simp add: sample_changes_def sample_change_def change_path_def log_entry_def
        skip_sample_paths note_sample_paths skip_parquet note_parquet reason_yarn_lock)


section \<open>Lines of a diff\<close>

lemma split_lines_not_Nil: "split_lines s \<noteq> []"
  by (induction s) (auto split: list.splits)

lemma length_split_lines: "length (split_lines s) = Suc (count_list s newline)"
  by (induction s) (auto split: list.splits simp: split_lines_not_Nil)

lemma length_split_lines_int: "int (length (split_lines s)) = count_newlines s + 1"
  by (simp add: length_split_lines count_newlines_def)

section \<open>The search for a breakpoint\<close>

lemma py_index_in_range:
  "0 \<le> i \<Longrightarrow> i < int (length xs) \<Longrightarrow> py_index xs i = Inr (xs ! nat i)"
  by (simp add: py_index_def)

lemma find_breakpoint_scan_bounds:
  assumes "0 \<le> start" and "i < int (length lines)"
  shows "\<exists>bp. find_breakpoint_scan lines start e i = Inr bp \<and> (bp = e \<or> (start < bp \<and> bp \<le> i + 1))"
  using assms
proof (induction lines start e i rule: find_breakpoint_scan.induct)
  case (1 lines start e i)
  show ?case
  proof (cases "i \<le> start - 1")
    case True
    then show ?thesis by (subst find_breakpoint_scan.simps) simp
  next
    case False
    with 1 have idx: "py_index lines i = Inr (lines ! nat i)"
      by (simp add: py_index_in_range)
    show ?thesis
    proof (cases "is_breakpoint_line (lines ! nat i)")
      case True
      with False idx show ?thesis by (subst find_breakpoint_scan.simps) simp
    next
      case nb: False
      from "1.IH"[OF False idx nb] 1 False
      obtain bp where "find_breakpoint_scan lines start e (i - 1) = Inr bp" "bp = e \<or> (start < bp \<and> bp \<le> i)"
        by auto
      with False idx nb show ?thesis by (subst find_breakpoint_scan.simps) auto
    qed
  qed
qed

lemma find_breakpoint_scan_miss:
  assumes "0 \<le> start" and "i < int (length lines)"
    and "\<forall>j. start \<le> j \<and> j \<le> i \<longrightarrow> \<not> is_breakpoint_line (lines ! nat j)"
  shows "find_breakpoint_scan lines start e i = Inr e"
  using assms
proof (induction lines start e i rule: find_breakpoint_scan.induct)
  case (1 lines start e i)
  show ?case
  proof (cases "i \<le> start - 1")
    case True
    then show ?thesis by (subst find_breakpoint_scan.simps) simp
  next
    case False
    with 1 have idx: "py_index lines i = Inr (lines ! nat i)"
      by (simp add: py_index_in_range)
    from False "1.prems" have nb: "\<not> is_breakpoint_line (lines ! nat i)" by simp
    from "1.IH"[OF False idx nb] "1.prems"
    have "find_breakpoint_scan lines start e (i - 1) = Inr e" by simp
    with False idx nb show ?thesis by (subst find_breakpoint_scan.simps) simp
  qed
qed

lemma find_breakpoint_scan_hit:
  assumes "0 \<le> start" and "start \<le> b" and "b \<le> i" and "i < int (length lines)"
    and "is_breakpoint_line (lines ! nat b)"
    and "\<forall>j. b < j \<and> j \<le> i \<longrightarrow> \<not> is_breakpoint_line (lines ! nat j)"
  shows "find_breakpoint_scan lines start e i = Inr (b + 1)"
  using assms
proof (induction lines start e i rule: find_breakpoint_scan.induct)
  case (1 lines start e i)
  from "1.prems" have go: "\<not> i \<le> start - 1" by simp
  from "1.prems" have idx: "py_index lines i = Inr (lines ! nat i)"
    by (simp add: py_index_in_range)
  show ?case
  proof (cases "i = b")
    case True
    with go idx "1.prems" show ?thesis by (subst find_breakpoint_scan.simps) simp
  next
    case False
    with "1.prems" have nb: "\<not> is_breakpoint_line (lines ! nat i)" by simp
    from False "1.prems" have "find_breakpoint_scan lines start e (i - 1) = Inr (b + 1)"
      by (intro "1.IH"[OF go idx nb]) auto
    with go idx nb show ?thesis by (subst find_breakpoint_scan.simps) simp
  qed
qed

section \<open>Progress of the chunking loop\<close>

lemma choose_chunk_end_progress:
  assumes "0 < CHUNK_SIZE_LINES cfg" and "0 \<le> pos" and "pos < int (length lines)"
  shows "\<exists>e. choose_chunk_end cfg lines pos = Inr e \<and> pos < e \<and> e \<le> int (length lines)
           \<and> (e = min (pos + CHUNK_SIZE_LINES cfg) (int (length lines))
              \<or> find_breakpoint lines
                   (max (min (pos + CHUNK_SIZE_LINES cfg) (int (length lines)) - 50) pos)
                   (min (pos + CHUNK_SIZE_LINES cfg) (int (length lines))) = Inr e)"
proof -
  define t where "t = min (pos + CHUNK_SIZE_LINES cfg) (int (length lines))"
  have t: "pos < t" "t \<le> int (length lines)" using assms by (auto simp: t_def)
  show ?thesis
  proof (cases "t < int (length lines)")
    case False
    with t show ?thesis by (simp add: choose_chunk_end_def Let_def t_def[symmetric])
  next
    case True
    have "0 \<le> max (t - 50) pos" "t - 1 < int (length lines)" using assms t by auto
    from find_breakpoint_scan_bounds[OF this, of t]
    obtain bp where bp: "find_breakpoint lines (max (t - 50) pos) t = Inr bp"
      "bp = t \<or> (max (t - 50) pos < bp \<and> bp \<le> t)"
      by (auto simp: find_breakpoint_def)
    with True t show ?thesis
      by (auto simp add: choose_chunk_end_def Let_def t_def[symmetric])
  qed
qed

lemma chunk_loop_total:
  assumes "0 < CHUNK_SIZE_LINES cfg" and "0 \<le> pos" and "pos \<le> int (length lines)"
  shows "\<exists>out. chunk_loop cfg path lines pos num acc = Some (Inr (acc @ out))
               \<and> chunk_chain (int (length lines)) pos num out"
  using assms(2,3)
proof (induction "nat (int (length lines) - pos)" arbitrary: pos num acc rule: less_induct)
  case less
  show ?case
  proof (cases "pos < int (length lines)")
    case False
    with less.prems have "pos = int (length lines)" by simp
    then show ?thesis by (subst chunk_loop.simps) simp
  next
    case True
    from choose_chunk_end_progress[OF assms(1) less.prems(1) True]
    obtain e where e: "choose_chunk_end cfg lines pos = Inr e" "pos < e" "e \<le> int (length lines)"
      by blast
    define c where "c = \<lparr> filepath = path, chunk_number = num,
                            content = chunk_text cfg lines pos e,
                            start_line = pos + 1, end_line = e, total_chunks = 0 \<rparr>"
    have "nat (int (length lines) - e) < nat (int (length lines) - pos)" using e True by simp
    from less.hyps[OF this, of "num + 1" "acc @ [c]"] e less.prems
    obtain out where out: "chunk_loop cfg path lines e (num + 1) (acc @ [c]) = Some (Inr ((acc @ [c]) @ out))"
      "chunk_chain (int (length lines)) e (num + 1) out" by auto
    have "chunk_loop cfg path lines pos num acc = Some (Inr (acc @ c # out))"
      using True e out(1) by (subst chunk_loop.simps) (simp add: c_def)
    moreover have "chunk_chain (int (length lines)) pos num (c # out)"
      using e out(2) by (simp add: c_def)
    ultimately show ?thesis by blast
  qed
qed

section \<open>A chunk size of zero or less\<close>

lemma choose_chunk_end_nonpositive:
  assumes "CHUNK_SIZE_LINES cfg \<le> 0" and "pos \<le> 0" and "lines \<noteq> []"
  shows "choose_chunk_end cfg lines pos = Inr (pos + CHUNK_SIZE_LINES cfg)"
proof -
  have len: "0 < int (length lines)" using assms(3) by simp
  have scan: "find_breakpoint lines pos (pos + CHUNK_SIZE_LINES cfg) = Inr (pos + CHUNK_SIZE_LINES cfg)"
    unfolding find_breakpoint_def using assms(1) by (subst find_breakpoint_scan.simps) simp
  have m: "min (pos + CHUNK_SIZE_LINES cfg) (int (length lines)) = pos + CHUNK_SIZE_LINES cfg"
    "max (pos + CHUNK_SIZE_LINES cfg - 50) pos = pos"
    using assms(1,2) len by auto
  show ?thesis
    using assms(1,2) len by (simp add: choose_chunk_end_def Let_def m scan)
qed

lemma chunk_loop_stuck:
  assumes "chunk_loop cfg path lines pos num acc = Some r"
  shows "\<not> (CHUNK_SIZE_LINES cfg \<le> 0 \<and> pos \<le> 0 \<and> lines \<noteq> [])"
  using assms
proof (induction rule: chunk_loop.raw_induct[rotated 1, consumes 1])
  case (1 f cfg path lines pos num acc r)
  show ?case
  proof
    assume stuck: "CHUNK_SIZE_LINES cfg \<le> 0 \<and> pos \<le> 0 \<and> lines \<noteq> []"
    then have "0 < length lines" by simp
    with stuck have lt: "pos < int (length lines)" by linarith
    from stuck have ce: "choose_chunk_end cfg lines pos = Inr (pos + CHUNK_SIZE_LINES cfg)"
      by (simp add: choose_chunk_end_nonpositive)
    from "1.hyps" lt ce obtain acc' where
      "f cfg path lines (pos + CHUNK_SIZE_LINES cfg) (num + 1) acc' = Some r"
      by simp
    from "1.IH"[OF this] stuck show False by simp
  qed
qed

lemma chunk_loop_diverges:
  assumes "CHUNK_SIZE_LINES cfg \<le> 0" and "pos \<le> 0" and "lines \<noteq> []"
  shows "chunk_loop cfg path lines pos num acc = None"
  using chunk_loop_stuck[of cfg path lines pos num acc] assms
  by (cases "chunk_loop cfg path lines pos num acc") auto

lemma chunk_diff_diverges:
  "CHUNK_SIZE_LINES cfg \<le> 0 \<Longrightarrow> chunk_diff cfg path d = None"
  by (simp add: chunk_diff_def chunk_loop_diverges split_lines_not_Nil)

section \<open>The chain of chunks\<close>

lemma chunk_chain_nonempty: "chunk_chain n pos num cs \<Longrightarrow> pos < n \<Longrightarrow> cs \<noteq> []"
  by (cases cs) auto

lemma chunk_chain_hd: "chunk_chain n pos num cs \<Longrightarrow> cs \<noteq> [] \<Longrightarrow> start_line (hd cs) = pos + 1"
  by (cases cs) auto

lemma chunk_chain_last: "chunk_chain n pos num cs \<Longrightarrow> cs \<noteq> [] \<Longrightarrow> end_line (last cs) = n"
proof (induction cs arbitrary: pos num)
  case Nil then show ?case by simp
next
  case (Cons c cs) then show ?case by (cases cs) auto
qed

lemma chunk_chain_length: "chunk_chain n pos num cs \<Longrightarrow> int (length cs) \<le> n - pos"
proof (induction cs arbitrary: pos num)
  case Nil then show ?case by simp
next
  case (Cons c cs)
  then have "int (length cs) \<le> n - end_line c" "pos < end_line c" by auto
  then show ?case by simp
qed

lemma chunk_chain_nth:
  "chunk_chain n pos num cs \<Longrightarrow> k < length cs \<Longrightarrow>
     start_line (cs ! k) \<le> end_line (cs ! k) \<and> chunk_number (cs ! k) = num + int k"
proof (induction cs arbitrary: pos num k)
  case Nil then show ?case by simp
next
  case (Cons c cs)
  show ?case
  proof (cases k)
    case 0 with Cons.prems show ?thesis by auto
  next
    case (Suc j)
    with Cons.prems have "chunk_chain n (end_line c) (num + 1) cs" "j < length cs" by auto
    from Cons.IH[OF this] Suc show ?thesis by auto
  qed
qed

lemma chunk_chain_adjacent:
  "chunk_chain n pos num cs \<Longrightarrow> Suc k < length cs \<Longrightarrow>
     start_line (cs ! Suc k) = end_line (cs ! k) + 1"
proof (induction cs arbitrary: pos num k)
  case Nil then show ?case by simp
next
  case (Cons c cs)
  show ?case
  proof (cases k)
    case 0
    with Cons.prems obtain d ds where "cs = d # ds" by (cases cs) auto
    with 0 Cons.prems show ?thesis by auto
  next
    case (Suc j)
    with Cons.prems have "chunk_chain n (end_line c) (num + 1) cs" "Suc j < length cs" by auto
    from Cons.IH[OF this] Suc show ?thesis by simp
  qed
qed

lemma chunk_chain_cover:
  "chunk_chain n pos num cs \<Longrightarrow> (\<Union>c\<in>set cs. {start_line c..end_line c}) = {pos + 1..n}"
proof (induction cs arbitrary: pos num)
  case Nil
  then show ?case by simp
next
  case (Cons c cs)
  then have "(\<Union>c\<in>set cs. {start_line c..end_line c}) = {end_line c + 1..n}"
    and "start_line c = pos + 1" "pos < end_line c" "end_line c \<le> n" by auto
  then show ?case by auto
qed

lemma chunk_chain_after:
  "chunk_chain n pos num cs \<Longrightarrow> k < length cs \<Longrightarrow> pos < start_line (cs ! k)"
proof (induction cs arbitrary: pos num k)
  case Nil then show ?case by simp
next
  case (Cons c cs)
  show ?case
  proof (cases k)
    case 0 with Cons.prems show ?thesis by auto
  next
    case (Suc j)
    with Cons.prems have "chunk_chain n (end_line c) (num + 1) cs" "j < length cs" "pos < end_line c"
      by auto
    with Cons.IH[of "end_line c" "num + 1" j] Suc show ?thesis by auto
  qed
qed

lemma chunk_chain_disjoint:
  "chunk_chain n pos num cs \<Longrightarrow> i < j \<Longrightarrow> j < length cs \<Longrightarrow>
     end_line (cs ! i) < start_line (cs ! j)"
proof (induction cs arbitrary: pos num i j)
  case Nil then show ?case by simp
next
  case (Cons c cs)
  from Cons.prems obtain j' where j: "j = Suc j'" by (cases j) auto
  from Cons.prems have ch: "chunk_chain n (end_line c) (num + 1) cs" by simp
  show ?case
  proof (cases i)
    case 0
    with j Cons.prems chunk_chain_after[OF ch, of j'] show ?thesis by simp
  next
    case (Suc i')
    with j Cons.prems Cons.IH[OF ch, of i' j'] show ?thesis by simp
  qed
qed

text \<open>What \<open>_chunk_diff\<close> returns, for a chunk size above zero.\<close>

lemma chunk_diff_total:
  assumes "0 < CHUNK_SIZE_LINES cfg"
  shows "\<exists>out. chunk_chain (int (length (split_lines d))) 0 1 out \<and> out \<noteq> []
           \<and> chunk_diff cfg path d =
               Some (Inr (map (\<lambda>chunk. chunk\<lparr> total_chunks := int (length out) \<rparr>) out))"
proof -
  from chunk_loop_total[OF assms, of 0 "split_lines d" path 1 "[]"]
  obtain out where out: "chunk_loop cfg path (split_lines d) 0 1 [] = Some (Inr out)"
    "chunk_chain (int (length (split_lines d))) 0 1 out" by auto
  have "0 < int (length (split_lines d))" using split_lines_not_Nil[of d] by simp
  with out(2) have "out \<noteq> []" by (rule chunk_chain_nonempty)
  with out show ?thesis by (auto simp: chunk_diff_def)
qed

text \<open>The properties of the list that \<open>_chunk_diff\<close> returns, whenever it returns.\<close>

lemma chunk_diff_result:
  assumes "chunk_diff cfg path d = Some (Inr chunks)"
  shows "chunks \<noteq> []"
    and "start_line (hd chunks) = 1"
    and "end_line (last chunks) = int (length (split_lines d))"
    and "length chunks \<le> length (split_lines d)"
    and "\<And>k. Suc k < length chunks \<Longrightarrow> start_line (chunks ! Suc k) = end_line (chunks ! k) + 1"
    and "\<And>k. k < length chunks \<Longrightarrow> start_line (chunks ! k) \<le> end_line (chunks ! k)"
    and "\<And>k. k < length chunks \<Longrightarrow> chunk_number (chunks ! k) = int k + 1"
    and "\<And>k. k < length chunks \<Longrightarrow> total_chunks (chunks ! k) = int (length chunks)"
proof -
  have pos: "0 < CHUNK_SIZE_LINES cfg"
    using assms chunk_diff_diverges[of cfg path d] by (cases "0 < CHUNK_SIZE_LINES cfg") auto
  from chunk_diff_total[OF pos, of d path] assms
  obtain out where ch: "chunk_chain (int (length (split_lines d))) 0 1 out" and ne: "out \<noteq> []"
    and eq: "chunks = map (\<lambda>chunk. chunk\<lparr> total_chunks := int (length out) \<rparr>) out"
    by auto
  show "chunks \<noteq> []" using ne eq by simp
  show "start_line (hd chunks) = 1" using chunk_chain_hd[OF ch ne] ne eq by (simp add: hd_map)
  show "end_line (last chunks) = int (length (split_lines d))"
    using chunk_chain_last[OF ch ne] ne eq by (simp add: last_map)
  show "length chunks \<le> length (split_lines d)" using chunk_chain_length[OF ch] eq by simp
  show "start_line (chunks ! Suc k) = end_line (chunks ! k) + 1" if "Suc k < length chunks" for k
    using chunk_chain_adjacent[OF ch, of k] that eq by simp
  show "start_line (chunks ! k) \<le> end_line (chunks ! k)" if "k < length chunks" for k
    using chunk_chain_nth[OF ch, of k] that eq by simp
  show "chunk_number (chunks ! k) = int k + 1" if "k < length chunks" for k
    using chunk_chain_nth[OF ch, of k] that eq by simp
  show "total_chunks (chunks ! k) = int (length chunks)" if "k < length chunks" for k
    using that eq by simp
qed

lemma chunk_diff_result_cover:
  assumes "chunk_diff cfg path d = Some (Inr chunks)"
  shows "(\<Union>c\<in>set chunks. {start_line c..end_line c}) = {1..int (length (split_lines d))}"
    and "\<And>i j. i < j \<Longrightarrow> j < length chunks \<Longrightarrow> end_line (chunks ! i) < start_line (chunks ! j)"
proof -
  have pos: "0 < CHUNK_SIZE_LINES cfg"
    using assms chunk_diff_diverges[of cfg path d] by (cases "0 < CHUNK_SIZE_LINES cfg") auto
  from chunk_diff_total[OF pos, of d path] assms
  obtain out where ch: "chunk_chain (int (length (split_lines d))) 0 1 out"
    and eq: "chunks = map (\<lambda>chunk. chunk\<lparr> total_chunks := int (length out) \<rparr>) out"
    by auto
  show "(\<Union>c\<in>set chunks. {start_line c..end_line c}) = {1..int (length (split_lines d))}"
    using chunk_chain_cover[OF ch] by (simp add: eq)
  show "end_line (chunks ! i) < start_line (chunks ! j)" if "i < j" "j < length chunks" for i j
    using chunk_chain_disjoint[OF ch, of i j] that by (simp add: eq)
qed

lemma process_file_chunked:
  "should_chunk ff \<Longrightarrow>
     process_file cfg ff = chunk_diff cfg (change_path (file_change ff)) (diff (file_change ff))"
  by (simp add: process_file_def Let_def)

lemma blank_is_breakpoint: "strip line = [] \<Longrightarrow> is_breakpoint_line line"
  by (simp add: is_breakpoint_line_def)

text \<open>Under the default configuration, a diff of 301 to 551 line elements is cut once,
  at the breakpoint found in the elements 250 to 299.\<close>

lemma chunk_loop_two_chunks:
  assumes bp: "find_breakpoint lines 250 300 = Inr bp" "250 < bp" "bp \<le> 300"
    and len: "300 < int (length lines)" "int (length lines) \<le> 551"
  shows "chunk_loop default_config path lines 0 1 [] =
     Some (Inr [ \<lparr> filepath = path, chunk_number = 1,
                    content = chunk_text default_config lines 0 bp,
                    start_line = 1, end_line = bp, total_chunks = 0 \<rparr>,
                 \<lparr> filepath = path, chunk_number = 2,
                    content = chunk_text default_config lines bp (int (length lines)),
                    start_line = bp + 1, end_line = int (length lines), total_chunks = 0 \<rparr> ])"
proof -
  have e1: "choose_chunk_end default_config lines 0 = Inr bp"
    using bp len by (simp add: choose_chunk_end_def default_config_def Let_def)
  have e2: "choose_chunk_end default_config lines bp = Inr (int (length lines))"
    using bp len by (simp add: choose_chunk_end_def default_config_def Let_def)
  have l3: "chunk_loop default_config path lines (int (length lines)) n acc = Some (Inr acc)" for n acc
    by (subst chunk_loop.simps) simp
  have l2: "chunk_loop default_config path lines bp n acc = Some (Inr (acc @
      [\<lparr> filepath = path, chunk_number = n,
          content = chunk_text default_config lines bp (int (length lines)),
          start_line = bp + 1, end_line = int (length lines), total_chunks = 0 \<rparr>]))" for n acc
    using bp len by (subst chunk_loop.simps) (simp add: e2 l3)
  have "0 < int (length lines)" using len by linarith
  then show ?thesis
    by (subst chunk_loop.simps) (simp add: e1 l2)
qed

lemma find_breakpoint_blank_line:
  assumes "251 \<le> L" and "L \<le> 300" and "300 < length lines"
    and "strip (lines ! (L - 1)) = []"
    and "\<forall>j. L < j \<and> j \<le> 300 \<longrightarrow> \<not> is_breakpoint_line (lines ! (j - 1))"
  shows "find_breakpoint lines 250 300 = Inr (int L)"
proof -
  have "find_breakpoint_scan lines 250 300 299 = Inr (int (L - 1) + 1)"
  proof (rule find_breakpoint_scan_hit)
    show "is_breakpoint_line (lines ! nat (int (L - 1)))"
      using assms(4) by (simp add: blank_is_breakpoint)
    show "\<forall>j. int (L - 1) < j \<and> j \<le> 299 \<longrightarrow> \<not> is_breakpoint_line (lines ! nat j)"
    proof (intro allI impI)
      fix j :: int assume j: "int (L - 1) < j \<and> j \<le> 299"
      then have "L < nat j + 1 \<and> nat j + 1 \<le> 300" using assms(1) by auto
      with assms(5) have "\<not> is_breakpoint_line (lines ! (nat j + 1 - 1))" by blast
      then show "\<not> is_breakpoint_line (lines ! nat j)" by simp
    qed
  qed (use assms in auto)
  with assms(1) show ?thesis by (simp add: find_breakpoint_def)
qed

lemma find_breakpoint_no_boundary:
  assumes "300 < length lines"
    and "\<forall>j. 250 < j \<and> j \<le> 300 \<longrightarrow> \<not> is_breakpoint_line (lines ! (j - 1))"
  shows "find_breakpoint lines 250 300 = Inr 300"
proof -
  have "find_breakpoint_scan lines 250 300 299 = Inr 300"
  proof (rule find_breakpoint_scan_miss)
    show "\<forall>j. 250 \<le> j \<and> j \<le> 299 \<longrightarrow> \<not> is_breakpoint_line (lines ! nat j)"
    proof (intro allI impI)
      fix j :: int assume j: "250 \<le> j \<and> j \<le> 299"
      then have "250 < nat j + 1 \<and> nat j + 1 \<le> 300" by auto
      with assms(2) have "\<not> is_breakpoint_line (lines ! (nat j + 1 - 1))" by blast
      then show "\<not> is_breakpoint_line (lines ! nat j)" by simp
    qed
  qed (use assms in auto)
  then show ?thesis by (simp add: find_breakpoint_def)
qed

text \<open>The elements of a diff of repeated lines.\<close>

lemma split_lines_line: 
  "newline \<notin> set l \<Longrightarrow> split_lines (l @ newline # rest) = l # split_lines rest"
  by (induction l) (auto split: list.splits simp: split_lines_not_Nil)

lemma split_lines_repeat_line:
  "newline \<notin> set l \<Longrightarrow> split_lines (repeat_line n l @ rest) = replicate n l @ split_lines rest"
  by (induction n) (simp_all add: repeat_line_def split_lines_line)

lemma count_newlines_repeat_line:
  "newline \<notin> set l \<Longrightarrow> count_list (repeat_line n l) newline = n"
  by (induction n) (simp_all add: repeat_line_def)

lemma count_list_append_nl: "count_list (xs @ ys) c = count_list xs c + count_list ys c"
  by (induction xs) auto

lemma plus_x: "newline \<notin> set ''+x''" by (simp add: newline_def)

lemma lines_250: "split_lines diff_301_blank_250 = replicate 249 ''+x'' @ [] # replicate 51 ''+x'' @ [[]]"
  using split_lines_repeat_line[OF plus_x, of 51 "[]"] 
  by (simp add: diff_301_blank_250_def split_lines_repeat_line[OF plus_x])

lemma count_250: "count_newlines diff_301_blank_250 = 301"
  by (simp add: diff_301_blank_250_def count_newlines_def count_list_append_nl count_newlines_repeat_line[OF plus_x])

lemma not_bp_plus_x: "\<not> is_breakpoint_line ''+x''"
  by code_simp

lemma strip_empty: "strip [] = []"
  by code_simp

lemma five_lines_chunks:
  "spans (process_file small_config (analyze small_config five_lines))
     = Some [(1, 1, 2, 3), (2, 3, 4, 3), (3, 5, 6, 3)]"
  by code_simp

lemma five_lines_should_chunk: "should_chunk (analyze small_config five_lines)"
  by code_simp

lemma five_lines_length: "int (length (split_lines (diff five_lines))) = 6"
  by code_simp

lemma length_repeat_line: "length (repeat_line n l) = n * Suc (length l)"
  by (induction n) (simp_all add: repeat_line_def)

lemma blank_251_one_line: "newline \<notin> set blank_251"
  by (simp add: blank_251_def newline_def)

lemma strip_blank_251: "strip blank_251 = []"
  by code_simp

lemma lines_251:
  "split_lines diff_301_blank_251
     = replicate 250 ''+x'' @ blank_251 # replicate 50 ''+x'' @ [[]]"
proof -
  have "split_lines (blank_251 @ newline # repeat_line 50 ''+x'')
          = blank_251 # replicate 50 ''+x'' @ [[]]"
    using split_lines_repeat_line[OF plus_x, of 50 "[]"]
    by (simp add: split_lines_line[OF blank_251_one_line])
  then show ?thesis
    by (simp add: diff_301_blank_251_def split_lines_repeat_line[OF plus_x])
qed

lemma count_251: "count_newlines diff_301_blank_251 = 301"
proof -
  have "count_list blank_251 newline = 0"
    using blank_251_one_line by (simp add: count_list_0_iff)
  then show ?thesis
    by (simp add: diff_301_blank_251_def count_newlines_def count_list_append_nl
          count_newlines_repeat_line[OF plus_x])
qed

lemma lines_unterminated:
  "split_lines diff_301_unterminated = replicate 249 ''+x'' @ [] # replicate 50 ''+x'' @ [''+x'']"
proof -
  have "split_lines ''+x'' = [''+x'']" by (simp add: newline_def)
  with split_lines_repeat_line[OF plus_x, of 50 "''+x''"] show ?thesis
    by (simp add: diff_301_unterminated_def split_lines_repeat_line[OF plus_x])
qed

lemma plus_x_chars: "CHR ''+'' \<noteq> newline" "CHR ''x'' \<noteq> newline"
  by (simp_all add: newline_def)

lemma count_unterminated: "count_newlines diff_301_unterminated = 300"
  by (simp add: diff_301_unterminated_def count_newlines_def count_list_append_nl
        count_newlines_repeat_line[OF plus_x] plus_x_chars)

lemma length_unterminated: "length diff_301_unterminated = 900"
  by (simp add: diff_301_unterminated_def length_repeat_line)

lemma analyze_file_change: "file_change (analyze cfg fc) = fc"
  by (simp add: analyze_def Let_def)

lemma should_chunk_analyze:
  "should_chunk (analyze cfg fc) =
     (count_newlines (diff fc) > CHUNK_SIZE_LINES cfg
      \<or> rat_of_nat (length (diff fc)) / 1024 > rat_of_int (MAX_FILE_SIZE_KB cfg))"
  by (simp add: analyze_def Let_def)

text \<open>Two chunks under the default configuration.\<close>

lemma process_file_two_chunks:
  assumes sc: "should_chunk (analyze default_config fc)"
    and bp: "find_breakpoint (split_lines (diff fc)) 250 300 = Inr bp" "250 < bp" "bp \<le> 300"
    and len: "300 < int (length (split_lines (diff fc)))" "int (length (split_lines (diff fc))) \<le> 551"
  shows "process_file default_config (analyze default_config fc) =
     Some (Inr [ \<lparr> filepath = change_path fc, chunk_number = 1,
                    content = chunk_text default_config (split_lines (diff fc)) 0 bp,
                    start_line = 1, end_line = bp, total_chunks = 2 \<rparr>,
                 \<lparr> filepath = change_path fc, chunk_number = 2,
                    content = chunk_text default_config (split_lines (diff fc)) bp
                                (int (length (split_lines (diff fc)))),
                    start_line = bp + 1, end_line = int (length (split_lines (diff fc))),
                    total_chunks = 2 \<rparr> ])"
  by (simp add: process_file_chunked[OF sc] analyze_file_change chunk_diff_def
        chunk_loop_two_chunks[OF bp len])

lemma window_250:
  "\<forall>j. 250 < j \<and> j \<le> 300 \<longrightarrow> \<not> is_breakpoint_line (split_lines diff_301_blank_250 ! (j - 1))"
  by (auto simp add: lines_250 nth_append nth_Cons' not_bp_plus_x)

lemma window_251:
  "\<forall>j. 251 < j \<and> j \<le> 300 \<longrightarrow> \<not> is_breakpoint_line (split_lines diff_301_blank_251 ! (j - 1))"
  by (auto simp add: lines_251 nth_append nth_Cons' not_bp_plus_x)

lemma diff_big_change: "diff (big_change d) = d"
  by (simp add: big_change_def sample_change_def)


section \<open>The critical patterns as keywords\<close>








section \<open>Properties of the diff processor\<close>

text \<open>
  C1. Claimed: a diff of exactly 301 lines with a blank line at line 250 is cut, under the
  default configuration, into a chunk of the lines 1 to 250 and a chunk of the lines 251
  to 301. In the code the search for a breakpoint looks at the last 50 lines of the
  tentative chunk, the lines 251 to 300, so a blank line at line 250 is never reached.
  Evaluated here, on 301 lines \<open>+x\<close> of which line 250 is empty: with a final line feed
  the chunks are the lines 1 to 300 and 301 to 302; without it the diff has 300 line
  feeds, is not chunked, and the one chunk has the lines 1 to 300.
\<close>

theorem C1_blank_line_250_counterexample:
  "count_newlines diff_301_blank_250 = 301
   \<and> split_lines diff_301_blank_250 ! 249 = []
   \<and> spans (process_file default_config (analyze default_config (big_change diff_301_blank_250)))
       = Some [(1, 1, 300, 2), (2, 301, 302, 2)]
   \<and> length (split_lines diff_301_unterminated) = 301
   \<and> split_lines diff_301_unterminated ! 249 = []
   \<and> spans (process_file default_config (analyze default_config (big_change diff_301_unterminated)))
       = Some [(1, 1, 300, 1)]"
proof -
  have sc: "should_chunk (analyze default_config (big_change diff_301_blank_250))"
    by (simp add: should_chunk_analyze diff_big_change count_250 default_config_def)
  have bp: "find_breakpoint (split_lines (diff (big_change diff_301_blank_250))) 250 300 = Inr 300"
    unfolding diff_big_change
    by (rule find_breakpoint_no_boundary[OF _ window_250]) (simp add: lines_250)
  have len: "int (length (split_lines (diff (big_change diff_301_blank_250)))) = 302"
    by (simp add: diff_big_change lines_250)
  have a: "spans (process_file default_config (analyze default_config (big_change diff_301_blank_250)))
       = Some [(1, 1, 300, 2), (2, 301, 302, 2)]"
    by (subst process_file_two_chunks[OF sc bp]) (simp_all add: len spans_def chunk_span_def)
  have nsc: "\<not> should_chunk (analyze default_config (big_change diff_301_unterminated))"
    by (simp add: should_chunk_analyze diff_big_change count_unterminated length_unterminated
          default_config_def)
  have b: "spans (process_file default_config (analyze default_config (big_change diff_301_unterminated)))
       = Some [(1, 1, 300, 1)]"
    using nsc
    by (simp add: process_file_def Let_def spans_def chunk_span_def)
       (simp add: analyze_def Let_def diff_big_change count_unterminated)
  have c: "split_lines diff_301_blank_250 ! 249 = []" "split_lines diff_301_unterminated ! 249 = []"
    by (simp_all add: lines_250 lines_unterminated nth_append)
  have d: "length (split_lines diff_301_unterminated) = 301"
    by (simp add: lines_unterminated)
  from a b c d count_250 show ?thesis by blast
qed

text \<open>
  C1, as the code has it. Let a file be chunked under the default configuration, let its
  diff have \<open>N\<close> line elements with \<open>N\<close> = 301 (no final line feed) or 302 (301 lines and a
  final line feed), let line \<open>L\<close> be blank for some \<open>L\<close> from 251 to 300, and let no line
  after \<open>L\<close> up to line 300 be a breakpoint line. Then processing returns exactly two
  chunks: the lines 1 to \<open>L\<close> and the lines \<open>L + 1\<close> to \<open>N\<close>, each with
  \<open>total_chunks\<close> 2.
\<close>

theorem C1_two_chunks_at_blank_line:
  assumes "should_chunk (analyze default_config fc)"
    and "length (split_lines (diff fc)) = N" and "301 \<le> N" and "N \<le> 302"
    and "251 \<le> L" and "L \<le> 300"
    and "strip (split_lines (diff fc) ! (L - 1)) = []"
    and "\<forall>j. L < j \<and> j \<le> 300 \<longrightarrow> \<not> is_breakpoint_line (split_lines (diff fc) ! (j - 1))"
  shows "\<exists>c1 c2. process_file default_config (analyze default_config fc) = Some (Inr [c1, c2])
           \<and> chunk_number c1 = 1 \<and> start_line c1 = 1 \<and> end_line c1 = int L \<and> total_chunks c1 = 2
           \<and> chunk_number c2 = 2 \<and> start_line c2 = int L + 1 \<and> end_line c2 = int N
           \<and> total_chunks c2 = 2"
proof -
  have bp: "find_breakpoint (split_lines (diff fc)) 250 300 = Inr (int L)"
    using assms by (intro find_breakpoint_blank_line) auto
  have "process_file default_config (analyze default_config fc) =
     Some (Inr [ \<lparr> filepath = change_path fc, chunk_number = 1,
                    content = chunk_text default_config (split_lines (diff fc)) 0 (int L),
                    start_line = 1, end_line = int L, total_chunks = 2 \<rparr>,
                 \<lparr> filepath = change_path fc, chunk_number = 2,
                    content = chunk_text default_config (split_lines (diff fc)) (int L)
                                (int (length (split_lines (diff fc)))),
                    start_line = int L + 1, end_line = int (length (split_lines (diff fc))),
                    total_chunks = 2 \<rparr> ])"
    using assms by (intro process_file_two_chunks bp) auto
  with assms(2) show ?thesis by simp
qed

theorem C1_two_chunks_at_blank_line_witness:
  "should_chunk (analyze default_config (big_change diff_301_blank_251))
   \<and> count_newlines diff_301_blank_251 = 301
   \<and> length (split_lines (diff (big_change diff_301_blank_251))) = 302
   \<and> split_lines (diff (big_change diff_301_blank_251)) ! (251 - 1) = blank_251
   \<and> strip (split_lines (diff (big_change diff_301_blank_251)) ! (251 - 1)) = []
   \<and> (\<exists>c1 c2. process_file default_config (analyze default_config (big_change diff_301_blank_251))
                 = Some (Inr [c1, c2])
           \<and> chunk_number c1 = 1 \<and> start_line c1 = 1 \<and> end_line c1 = 251 \<and> total_chunks c1 = 2
           \<and> chunk_number c2 = 2 \<and> start_line c2 = 252 \<and> end_line c2 = 302
           \<and> total_chunks c2 = 2)"
proof -
  have sc: "should_chunk (analyze default_config (big_change diff_301_blank_251))"
    by (simp add: should_chunk_analyze diff_big_change count_251 default_config_def)
  have len: "length (split_lines (diff (big_change diff_301_blank_251))) = 302"
    by (simp add: diff_big_change lines_251)
  have line: "split_lines (diff (big_change diff_301_blank_251)) ! (251 - 1) = blank_251"
    by (simp add: diff_big_change lines_251 nth_append)
  then have blank: "strip (split_lines (diff (big_change diff_301_blank_251)) ! (251 - 1)) = []"
    by (simp only: strip_blank_251)
  have win: "\<forall>j. 251 < j \<and> j \<le> 300 \<longrightarrow>
      \<not> is_breakpoint_line (split_lines (diff (big_change diff_301_blank_251)) ! (j - 1))"
    unfolding diff_big_change by (rule window_251)
  from C1_two_chunks_at_blank_line [OF sc len _ _ _ _ blank win] sc len line blank count_251
  show ?thesis by simp
qed

text \<open>
  C3. For a file that is chunked, let \<open>N\<close> be the number of elements of its diff split at
  the line feeds. Whenever \<open>process_file\<close> returns, and it returns for every chunk size
  above zero, the list of chunks is not empty, the first chunk starts at line 1, the last
  ends at line \<open>N\<close>, each chunk starts one line after the end of the chunk before it and
  does not end before it starts, the chunk numbers are 1, 2, ... in order, and every chunk
  has the number of chunks as \<open>total_chunks\<close>. The ranges from \<open>start_line\<close> to \<open>end_line\<close>
  partition the lines 1 to \<open>N\<close>: their union is the set of these lines, and an earlier chunk
  ends before a later chunk starts.
\<close>

theorem C3_chunks_partition_lines:
  assumes "should_chunk ff"
  shows "(0 < CHUNK_SIZE_LINES cfg \<longrightarrow> (\<exists>chunks. process_file cfg ff = Some (Inr chunks)))
       \<and> (\<forall>chunks. process_file cfg ff = Some (Inr chunks) \<longrightarrow>
            chunks \<noteq> []
            \<and> start_line (hd chunks) = 1
            \<and> end_line (last chunks) = int (length (split_lines (diff (file_change ff))))
            \<and> (\<forall>k. Suc k < length chunks \<longrightarrow>
                  start_line (chunks ! Suc k) = end_line (chunks ! k) + 1)
            \<and> (\<forall>k < length chunks.
                  start_line (chunks ! k) \<le> end_line (chunks ! k)
                  \<and> chunk_number (chunks ! k) = int k + 1
                  \<and> total_chunks (chunks ! k) = int (length chunks))
            \<and> (\<Union>c\<in>set chunks. {start_line c..end_line c})
                  = {1..int (length (split_lines (diff (file_change ff))))}
            \<and> (\<forall>i j. i < j \<and> j < length chunks \<longrightarrow>
                  end_line (chunks ! i) < start_line (chunks ! j)))"
proof (intro conjI impI allI)
  assume "0 < CHUNK_SIZE_LINES cfg"
  from chunk_diff_total[OF this] show "\<exists>chunks. process_file cfg ff = Some (Inr chunks)"
    by (simp add: process_file_chunked[OF assms]) blast
next
  fix chunks assume "process_file cfg ff = Some (Inr chunks)"
  then have r: "chunk_diff cfg (change_path (file_change ff)) (diff (file_change ff)) = Some (Inr chunks)"
    by (simp add: process_file_chunked[OF assms])
  note res = chunk_diff_result[OF r]
  show "chunks \<noteq> []" by (rule res(1))
  show "start_line (hd chunks) = 1" by (rule res(2))
  show "end_line (last chunks) = int (length (split_lines (diff (file_change ff))))" by (rule res(3))
  show "start_line (chunks ! Suc k) = end_line (chunks ! k) + 1" if "Suc k < length chunks" for k
    using that by (rule res(5))
  show "start_line (chunks ! k) \<le> end_line (chunks ! k)" if "k < length chunks" for k
    using that by (rule res(6))
  show "chunk_number (chunks ! k) = int k + 1" if "k < length chunks" for k
    using that by (rule res(7))
  show "total_chunks (chunks ! k) = int (length chunks)" if "k < length chunks" for k
    using that by (rule res(8))
  show "(\<Union>c\<in>set chunks. {start_line c..end_line c})
          = {1..int (length (split_lines (diff (file_change ff))))}"
    by (rule chunk_diff_result_cover(1)[OF r])
  show "end_line (chunks ! i) < start_line (chunks ! j)" if "i < j \<and> j < length chunks" for i j
    using that chunk_diff_result_cover(2)[OF r, of i j] by blast
qed

theorem C3_chunks_partition_lines_witness:
  "should_chunk (analyze small_config five_lines)
   \<and> 0 < CHUNK_SIZE_LINES small_config
   \<and> int (length (split_lines (diff (file_change (analyze small_config five_lines))))) = 6
   \<and> (\<exists>chunks. process_file small_config (analyze small_config five_lines) = Some (Inr chunks))
   \<and> spans (process_file small_config (analyze small_config five_lines))
       = Some [(1, 1, 2, 3), (2, 3, 4, 3), (3, 5, 6, 3)]"
proof -
  have pos: "0 < CHUNK_SIZE_LINES small_config" by (simp add: small_config_def)
  from C3_chunks_partition_lines [OF five_lines_should_chunk, of small_config] pos
  have "\<exists>chunks. process_file small_config (analyze small_config five_lines) = Some (Inr chunks)"
    by blast
  with pos five_lines_should_chunk five_lines_length five_lines_chunks show ?thesis
    by (simp add: analyze_file_change)
qed

text \<open>
  C4. Claimed: for every diff the loop of \<open>_chunk_diff\<close> terminates, because the end of
  a chunk is always after the position. In the code the chunk size is
  \<open>CHUNK_SIZE_LINES\<close>, which \<open>config.py\<close> reads from the environment and takes as it is.
  Evaluated here with the value 0: a diff of five lines is chunked, the end chosen at
  position 0 is 0 again, and \<open>process_file\<close> does not return.
\<close>

theorem C4_zero_chunk_size_counterexample:
  "CHUNK_SIZE_LINES zero_chunk_config = 0
   \<and> should_chunk (analyze zero_chunk_config five_lines)
   \<and> choose_chunk_end zero_chunk_config (split_lines (diff five_lines)) 0 = Inr 0
   \<and> process_file zero_chunk_config (analyze zero_chunk_config five_lines) = None"
proof -
  have z: "CHUNK_SIZE_LINES zero_chunk_config = 0" by (simp add: zero_chunk_config_def)
  have sc: "should_chunk (analyze zero_chunk_config five_lines)"
    using five_lines_length
    by (simp add: should_chunk_analyze z length_split_lines_int)
  have "choose_chunk_end zero_chunk_config (split_lines (diff five_lines)) 0
          = Inr (0 + CHUNK_SIZE_LINES zero_chunk_config)"
    by (rule choose_chunk_end_nonpositive) (simp_all add: z split_lines_not_Nil)
  then have e: "choose_chunk_end zero_chunk_config (split_lines (diff five_lines)) 0 = Inr 0"
    by (simp add: z)
  have "process_file zero_chunk_config (analyze zero_chunk_config five_lines) = None"
    by (simp add: process_file_chunked[OF sc] chunk_diff_diverges z)
  with z sc e show ?thesis by blast
qed

text \<open>
  C4, as the code has it. For every chunk size above zero (the default is 300) and every
  diff, the loop of \<open>_chunk_diff\<close> terminates, with at most one chunk for each line
  element. In every iteration, at a position from 0 and before the number of lines, the
  end of the chunk is after the position and within the lines, and it is the tentative end
  \<open>min (pos + chunk_size) total_lines\<close> or the breakpoint found before it.
\<close>

theorem C4_chunk_loop_terminates:
  assumes "0 < CHUNK_SIZE_LINES cfg"
  shows "(\<exists>chunks. chunk_diff cfg path d = Some (Inr chunks)
            \<and> length chunks \<le> length (split_lines d))
       \<and> (\<forall>lines pos. 0 \<le> pos \<and> pos < int (length lines) \<longrightarrow>
            (\<exists>e. choose_chunk_end cfg lines pos = Inr e \<and> pos < e \<and> e \<le> int (length lines)
               \<and> (e = min (pos + CHUNK_SIZE_LINES cfg) (int (length lines))
                  \<or> find_breakpoint lines
                       (max (min (pos + CHUNK_SIZE_LINES cfg) (int (length lines)) - 50) pos)
                       (min (pos + CHUNK_SIZE_LINES cfg) (int (length lines))) = Inr e)))"
proof (intro conjI allI impI)
  from chunk_diff_total[OF assms, of d path]
  obtain chunks where c: "chunk_diff cfg path d = Some (Inr chunks)" by blast
  from chunk_diff_result(4)[OF c] c
  show "\<exists>chunks. chunk_diff cfg path d = Some (Inr chunks) \<and> length chunks \<le> length (split_lines d)"
    by blast
next
  fix lines :: "string list" and pos :: int
  assume "0 \<le> pos \<and> pos < int (length lines)"
  then show "\<exists>e. choose_chunk_end cfg lines pos = Inr e \<and> pos < e \<and> e \<le> int (length lines)
               \<and> (e = min (pos + CHUNK_SIZE_LINES cfg) (int (length lines))
                  \<or> find_breakpoint lines
                       (max (min (pos + CHUNK_SIZE_LINES cfg) (int (length lines)) - 50) pos)
                       (min (pos + CHUNK_SIZE_LINES cfg) (int (length lines))) = Inr e)"
    using choose_chunk_end_progress[OF assms, of pos lines] by blast
qed

theorem C4_chunk_loop_terminates_witness:
  "0 < CHUNK_SIZE_LINES three_config
   \<and> (\<exists>chunks. chunk_diff three_config ''src/a.py'' blank_second_line = Some (Inr chunks)
          \<and> length chunks \<le> length (split_lines blank_second_line))
   \<and> spans (chunk_diff three_config ''src/a.py'' blank_second_line)
       = Some [(1, 1, 2, 2), (2, 3, 5, 2)]
   \<and> split_lines blank_second_line = [''+a'', [], ''+b'', ''+c'', ''+d'']
   \<and> find_breakpoint (split_lines blank_second_line) 0 3 = Inr 2
   \<and> choose_chunk_end three_config (split_lines blank_second_line) 0 = Inr 2
   \<and> choose_chunk_end three_config (split_lines blank_second_line) 2 = Inr 5"
proof -
  have pos: "0 < CHUNK_SIZE_LINES three_config" by (simp add: three_config_def)
  have a: "spans (chunk_diff three_config ''src/a.py'' blank_second_line)
          = Some [(1, 1, 2, 2), (2, 3, 5, 2)]"
    by code_simp
  have b: "split_lines blank_second_line = [''+a'', [], ''+b'', ''+c'', ''+d'']"
    by code_simp
  have c: "find_breakpoint (split_lines blank_second_line) 0 3 = Inr 2"
    by code_simp
  have d: "choose_chunk_end three_config (split_lines blank_second_line) 0 = Inr 2"
    by code_simp
  have e: "choose_chunk_end three_config (split_lines blank_second_line) 2 = Inr 5"
    by code_simp
  from C4_chunk_loop_terminates [OF pos, of "''src/a.py''" blank_second_line]
  have "\<exists>chunks. chunk_diff three_config ''src/a.py'' blank_second_line = Some (Inr chunks)
          \<and> length chunks \<le> length (split_lines blank_second_line)"
    by blast
  with pos a b c d e show ?thesis by blast
qed

text \<open>
  C9. Claimed, among other things: for the empty diff the one chunk returned has
  \<open>start_line\<close> 1 and \<open>end_line\<close> 0. In the code this is the chunk of a file that is not
  chunked, and \<open>should_chunk\<close> compares the size of the diff with thresholds that
  \<open>config.py\<close> reads from the environment and takes as they are. Evaluated here with
  \<open>MAX_FILE_SIZE_KB\<close> -1: the empty diff is chunked, and the one chunk returned has
  \<open>start_line\<close> 1 and \<open>end_line\<close> 1.
\<close>

theorem C9_negative_threshold_counterexample:
  "diff (sample_change ''src/empty.py'' [] ''added'') = []
   \<and> MAX_FILE_SIZE_KB negative_size_config = - 1
   \<and> should_chunk (analyze negative_size_config (sample_change ''src/empty.py'' [] ''added''))
   \<and> spans (process_file negative_size_config
               (analyze negative_size_config (sample_change ''src/empty.py'' [] ''added'')))
       = Some [(1, 1, 1, 1)]"
proof -
  have e: "diff (sample_change ''src/empty.py'' [] ''added'') = []"
    by (simp add: sample_change_def)
  have m: "MAX_FILE_SIZE_KB negative_size_config = - 1"
    by (simp add: negative_size_config_def)
  have sc: "should_chunk (analyze negative_size_config (sample_change ''src/empty.py'' [] ''added''))"
    by (simp add: should_chunk_analyze e m)
  have "spans (chunk_diff negative_size_config ''src/empty.py'' []) = Some [(1, 1, 1, 1)]"
    by code_simp
  then have "spans (process_file negative_size_config
               (analyze negative_size_config (sample_change ''src/empty.py'' [] ''added'')))
       = Some [(1, 1, 1, 1)]"
    by (simp add: process_file_chunked[OF sc] analyze_file_change e)
       (simp add: sample_change_def change_path_def)
  with e m sc show ?thesis by blast
qed

text \<open>
  C9, as the code has it. The \<open>line_count\<close> of a record is the number of line feeds of the
  diff, and the chunker works on one line element more than that. So for every diff that
  is chunked (with a final line feed or without), the last chunk ends at line
  \<open>line_count + 1\<close>, whenever \<open>process_file\<close> returns, and it returns for every chunk size
  above zero. The empty diff is not chunked when neither threshold is negative, as under
  the default configuration, and then its one chunk has \<open>start_line\<close> 1 and \<open>end_line\<close> 0.
\<close>

theorem C9_line_count_and_line_elements:
  "line_count (analyze cfg fc) = count_newlines (diff fc)
   \<and> int (length (split_lines (diff fc))) = count_newlines (diff fc) + 1
   \<and> (should_chunk (analyze cfg fc) \<longrightarrow>
        (0 < CHUNK_SIZE_LINES cfg \<longrightarrow> (\<exists>chunks. process_file cfg (analyze cfg fc) = Some (Inr chunks)))
        \<and> (\<forall>chunks. process_file cfg (analyze cfg fc) = Some (Inr chunks) \<longrightarrow>
             end_line (last chunks) = line_count (analyze cfg fc) + 1))
   \<and> (diff fc = [] \<and> 0 \<le> CHUNK_SIZE_LINES cfg \<and> 0 \<le> MAX_FILE_SIZE_KB cfg \<longrightarrow>
        \<not> should_chunk (analyze cfg fc)
        \<and> process_file cfg (analyze cfg fc) =
            Some (Inr [\<lparr> filepath = change_path fc, chunk_number = 1, content = [],
                         start_line = 1, end_line = 0, total_chunks = 1 \<rparr>]))"
proof (intro conjI impI allI)
  show lc: "line_count (analyze cfg fc) = count_newlines (diff fc)"
    by (simp add: analyze_def Let_def)
  show "int (length (split_lines (diff fc))) = count_newlines (diff fc) + 1"
    by (rule length_split_lines_int)
  have fc: "file_change (analyze cfg fc) = fc" for cfg by (simp add: analyze_def Let_def)
  { assume sc: "should_chunk (analyze cfg fc)"
    { assume "0 < CHUNK_SIZE_LINES cfg"
      from chunk_diff_total[OF this]
      show "\<exists>chunks. process_file cfg (analyze cfg fc) = Some (Inr chunks)"
        by (simp add: process_file_chunked[OF sc]) blast }
    { fix chunks assume "process_file cfg (analyze cfg fc) = Some (Inr chunks)"
      then have "chunk_diff cfg (change_path fc) (diff fc) = Some (Inr chunks)"
        by (simp add: process_file_chunked[OF sc] fc)
      from chunk_diff_result(3)[OF this]
      show "end_line (last chunks) = line_count (analyze cfg fc) + 1"
        by (simp add: lc length_split_lines_int) } }
  { assume e: "diff fc = [] \<and> 0 \<le> CHUNK_SIZE_LINES cfg \<and> 0 \<le> MAX_FILE_SIZE_KB cfg"
    then show nc: "\<not> should_chunk (analyze cfg fc)"
      by (simp add: should_chunk_analyze count_newlines_def)
    from e nc show "process_file cfg (analyze cfg fc) =
            Some (Inr [\<lparr> filepath = change_path fc, chunk_number = 1, content = [],
                         start_line = 1, end_line = 0, total_chunks = 1 \<rparr>])"
      by (simp add: process_file_def Let_def fc) (simp add: analyze_def Let_def count_newlines_def) }
qed

theorem C9_line_count_and_line_elements_witness:
  "line_count (analyze small_config five_lines) = 5
   \<and> int (length (split_lines (diff five_lines))) = 6
   \<and> should_chunk (analyze small_config five_lines)
   \<and> 0 < CHUNK_SIZE_LINES small_config
   \<and> spans (process_file small_config (analyze small_config five_lines))
       = Some [(1, 1, 2, 3), (2, 3, 4, 3), (3, 5, 6, 3)]
   \<and> diff (sample_change ''src/empty.py'' [] ''added'') = []
   \<and> 0 \<le> CHUNK_SIZE_LINES default_config \<and> 0 \<le> MAX_FILE_SIZE_KB default_config
   \<and> spans (process_file default_config
               (analyze default_config (sample_change ''src/empty.py'' [] ''added'')))
       = Some [(1, 1, 0, 1)]"
proof -
  have e: "diff (sample_change ''src/empty.py'' [] ''added'') = []"
    by (simp add: sample_change_def)
  have lc: "count_newlines (diff five_lines) = 5"
    using five_lines_length by (simp add: length_split_lines_int)
  from C9_line_count_and_line_elements [of small_config five_lines] lc
  have a: "line_count (analyze small_config five_lines) = 5" by simp
  have cfg: "0 \<le> CHUNK_SIZE_LINES default_config" "0 \<le> MAX_FILE_SIZE_KB default_config"
    by (simp_all add: default_config_def)
  from C9_line_count_and_line_elements
         [of default_config "sample_change ''src/empty.py'' [] ''added''"] e cfg
  have "spans (process_file default_config
               (analyze default_config (sample_change ''src/empty.py'' [] ''added'')))
       = Some [(1, 1, 0, 1)]"
    by (simp add: spans_def chunk_span_def)
  with a e cfg five_lines_length five_lines_should_chunk five_lines_chunks show ?thesis
    by (simp add: small_config_def)
qed


section \<open>Properties of the file filter\<close>

text \<open>
  C2. Claimed: the path \<open>vendor/package-lock.json\<close> is excluded, with no record emitted,
  and logged with the reason "lock file". In the code, \<open>should_skip_file\<close> uses
  \<open>pattern.match\<close>, which anchors the pattern \<open>package-lock\.json$\<close> at the start of the
  path: the file is skipped at the top of the repository and kept in every directory
  below, although \<open>_get_skip_reason\<close> would name it a lock file. Evaluated here: the
  path is not skipped, the filter emits its record, and the exclusion log stays empty.
\<close>

theorem C2_nested_package_lock_is_kept:
  "should_skip_file ''vendor/package-lock.json'' = False
   \<and> should_skip_file ''package-lock.json'' = True
   \<and> get_skip_reason ''vendor/package-lock.json'' = ''lock file''
   \<and> filter_files cfg init_FileFilter [sample_change ''vendor/package-lock.json'' d st]
       = ([analyze cfg (sample_change ''vendor/package-lock.json'' d st)],
          \<lparr> skipped_files = [] \<rparr>)"
  by (simp add: filter_files_eq log_entry_def skip_vendor_lock note_vendor_lock skip_root_lock
        reason_vendor_lock init_FileFilter_def sample_change_def change_path_def)

text \<open>
  C5. Running \<open>filter_files\<close> a second time on the same input, on the object as the first
  run left it, returns the same list of \<open>FilteredFile\<close> records as the first run.
\<close>

theorem C5_filter_files_same_output:
  "fst (filter_files cfg (snd (filter_files cfg self fcs)) fcs) = fst (filter_files cfg self fcs)"
  by (simp add: filter_files_eq)

theorem C5_filter_files_same_output_witness:
  "fst (filter_files default_config
          (snd (filter_files default_config init_FileFilter sample_changes)) sample_changes)
     = fst (filter_files default_config init_FileFilter sample_changes)
   \<and> length (fst (filter_files default_config init_FileFilter sample_changes)) = 3"
  using C5_filter_files_same_output [of default_config init_FileFilter sample_changes]
  by (simp add: filter_files_eq sample_changes_kept)

text \<open>
  C7. Every record that \<open>filter_files\<close> returns has \<open>should_review\<close> true exactly when it is
  not note-only and the status of its file is not "deleted"; so a deleted file is never
  reviewed. The records are those of the files that are not skipped, in input order: a
  skipped file has no record.
\<close>

theorem C7_should_review_iff:
  "map file_change (fst (filter_files cfg self fcs))
     = filter (\<lambda>fc. \<not> should_skip_file (change_path fc)) fcs
   \<and> (\<forall>ff \<in> set (fst (filter_files cfg self fcs)).
        (should_review ff \<longleftrightarrow> \<not> note_only ff \<and> status (file_change ff) \<noteq> ''deleted'')
        \<and> (status (file_change ff) = ''deleted'' \<longrightarrow> \<not> should_review ff)
        \<and> note_only ff = should_note_only (change_path (file_change ff))
        \<and> \<not> should_skip_file (change_path (file_change ff)))"
  by (auto simp add: filter_files_eq analyze_def Let_def comp_def)

theorem C7_should_review_iff_witness:
  "map file_change (fst (filter_files default_config init_FileFilter sample_changes))
     = [ sample_change ''src/auth/login_test.py'' (repeat_line 2 ''+x'') ''modified'',
         sample_change ''data/export.parquet'' (repeat_line 1 ''+z'') ''added'',
         sample_change ''src/old_module.py'' (repeat_line 3 ''-w'') ''deleted'' ]
   \<and> map (\<lambda>ff. (should_review ff, note_only ff, status (file_change ff)))
        (fst (filter_files default_config init_FileFilter sample_changes))
     = [ (True, False, ''modified''), (False, True, ''added''), (False, False, ''deleted'') ]"
proof -
  have kept: "map file_change (fst (filter_files default_config init_FileFilter sample_changes))
     = [ sample_change ''src/auth/login_test.py'' (repeat_line 2 ''+x'') ''modified'',
         sample_change ''data/export.parquet'' (repeat_line 1 ''+z'') ''added'',
         sample_change ''src/old_module.py'' (repeat_line 3 ''-w'') ''deleted'' ]"
    using C7_should_review_iff [of default_config init_FileFilter sample_changes]
    by (simp add: sample_changes_kept)
  have "map (\<lambda>ff. (should_review ff, note_only ff, status (file_change ff)))
        (fst (filter_files default_config init_FileFilter sample_changes))
     = [ (True, False, ''modified''), (False, True, ''added''), (False, False, ''deleted'') ]"
    unfolding filter_files_eq sample_changes_kept
    by (simp add: analyze_def Let_def sample_change_def change_path_def note_sample_paths
          note_parquet)
  with kept show ?thesis by blast
qed

text \<open>
  C8. A file whose path is \<open>data/export.parquet\<close>, given alone to a new \<open>FileFilter\<close>: its
  record is returned, with \<open>note_only\<close> true and \<open>should_review\<close> false, and the exclusion
  log holds the path exactly once, with the reason "large data file (noted but not
  reviewed)".
\<close>

theorem C8_parquet_note_only:
  assumes "change_path fc = ''data/export.parquet''"
  shows "\<exists>ff. filter_files cfg init_FileFilter [fc] =
             ([ff], \<lparr> skipped_files =
                [(''data/export.parquet'', ''large data file (noted but not reviewed)'')] \<rparr>)
           \<and> file_change ff = fc \<and> note_only ff \<and> \<not> should_review ff"
  using assms
  by (simp add: filter_files_eq log_entry_def skip_parquet note_parquet init_FileFilter_def
        analyze_def Let_def)

theorem C8_parquet_note_only_witness:
  "change_path (sample_change ''data/export.parquet'' ''+z'' ''added'') = ''data/export.parquet''
   \<and> (\<exists>ff. filter_files default_config init_FileFilter
              [sample_change ''data/export.parquet'' ''+z'' ''added''] =
             ([ff], \<lparr> skipped_files =
                [(''data/export.parquet'', ''large data file (noted but not reviewed)'')] \<rparr>)
           \<and> file_change ff = sample_change ''data/export.parquet'' ''+z'' ''added''
           \<and> note_only ff \<and> \<not> should_review ff)"
proof -
  have p: "change_path (sample_change ''data/export.parquet'' ''+z'' ''added'')
             = ''data/export.parquet''"
    by (simp add: change_path_def sample_change_def)
  from C8_parquet_note_only [OF p, of default_config] p show ?thesis by blast
qed

text \<open>
  C10. The exclusion log is never reset: after \<open>n\<close> calls of \<open>filter_files\<close> on one new
  \<open>FileFilter\<close> object with the same input, \<open>get_skipped_files\<close> returns the log of a
  single run repeated \<open>n\<close> times.
\<close>

theorem C10_log_repeated:
  "get_skipped_files (run_filter_files n cfg init_FileFilter fcs) =
     concat (replicate n (get_skipped_files (snd (filter_files cfg init_FileFilter fcs))))"
  by (simp add: get_skipped_files_def run_filter_files_log filter_files_eq init_FileFilter_def)

theorem C10_log_repeated_witness:
  "get_skipped_files (run_filter_files 2 default_config init_FileFilter sample_changes) =
     [ (''docs/yarn.lock'', ''lock file''),
       (''data/export.parquet'', ''large data file (noted but not reviewed)''),
       (''docs/yarn.lock'', ''lock file''),
       (''data/export.parquet'', ''large data file (noted but not reviewed)'') ]"
  using C10_log_repeated [of 2 default_config sample_changes]
  by (simp add: get_skipped_files_def filter_files_eq init_FileFilter_def sample_changes_log
        numeral_2_eq_2)


section \<open>Properties of the priority\<close>



end
